theory Spec2Isabelle
  imports Main "HOL-Library.Word" "HOL-Library.Sublist"
begin

section \<open>C strings\<close>

text \<open>
  A value of type \<open>string\<close> stands for the contents of a NUL-terminated C string (the
  characters before the terminator).  Only the \<open>marker\<close> buffer of
  \<open>gst_auto_video_src_create_element_with_pretty_name\<close> is written to in place; it is
  modelled as the allocated bytes, terminator included.
\<close>

definition NUL :: char where
  "NUL = CHR 0x00"

definition c_str :: "char list \<Rightarrow> string" where
  "c_str buf = takeWhile (\<lambda>c. c \<noteq> NUL) buf"

definition strlen :: "char list \<Rightarrow> nat" where
  "strlen buf = length (c_str buf)"

text \<open>\<open>strcmp\<close>: the difference of the first pair of bytes that differ (bytes read as
  unsigned char, the terminator as 0).  Its callers look at the sign only.\<close>

fun strcmp :: "string \<Rightarrow> string \<Rightarrow> int" where
  "strcmp [] [] = 0"
| "strcmp [] (b # bs) = - int (of_char b)"
| "strcmp (a # as) [] = int (of_char a)"
| "strcmp (a # as) (b # bs) =
     (if a = b then strcmp as bs else int (of_char a) - int (of_char b))"

fun starts_with :: "string \<Rightarrow> string \<Rightarrow> bool" where
  "starts_with [] hay = True"
| "starts_with (n # ns) [] = False"
| "starts_with (n # ns) (h # hs) = (n = h \<and> starts_with ns hs)"

text \<open>\<open>strstr haystack needle\<close>, read as a truth value (a non-NULL result).\<close>

fun strstr :: "string \<Rightarrow> string \<Rightarrow> bool" where
  "strstr [] needle = (needle = [])"
| "strstr (h # hs) needle = (starts_with needle (h # hs) \<or> strstr hs needle)"

definition g_strdup :: "string \<Rightarrow> char list" where
  "g_strdup s = s @ [NUL]"

text \<open>GLib: \<open>g_str_has_suffix\<close> compares the lengths and then the tail with \<open>strcmp\<close>;
  \<open>g_str_has_prefix\<close> compares the lengths and then the head with \<open>strncmp\<close>.\<close>

definition g_str_has_suffix :: "char list \<Rightarrow> string \<Rightarrow> bool" where
  "g_str_has_suffix str sfx =
     (let str_len = strlen str; suffix_len = length sfx
      in if str_len < suffix_len then False
         else strcmp (c_str (drop (str_len - suffix_len) str)) sfx = 0)"

definition g_str_has_prefix :: "char list \<Rightarrow> string \<Rightarrow> bool" where
  "g_str_has_prefix str pfx =
     (let str_len = strlen str; prefix_len = length pfx
      in if str_len < prefix_len then False
         else take prefix_len (c_str str) = pfx)"

datatype fault = OutOfBounds

text \<open>\<open>buf[i] = c\<close> with a \<open>size_t\<close> index: a write outside the allocation is a fault.\<close>

definition store_char :: "char list \<Rightarrow> 64 word \<Rightarrow> char \<Rightarrow> fault + char list" where
  "store_char buf i c = (if unat i < length buf then Inr (buf[unat i := c]) else Inl OutOfBounds)"

text \<open>\<open>g_memmove (buf, buf + off, n)\<close>: the \<open>n\<close> bytes from offset \<open>off\<close> overwrite the
  first \<open>n\<close> bytes; the rest of the buffer stays.\<close>

definition g_memmove :: "char list \<Rightarrow> nat \<Rightarrow> nat \<Rightarrow> char list" where
  "g_memmove buf off n = take n (drop off buf) @ drop n buf"

section \<open>Plugin features\<close>

datatype feature_type = ElementFactory | TypeFindFactory | IndexFactory

record feature =
  ftype :: feature_type
  fname :: string
  frank :: "32 word"
  fklass :: string

definition GST_IS_ELEMENT_FACTORY :: "feature \<Rightarrow> bool" where
  "GST_IS_ELEMENT_FACTORY f = (ftype f = ElementFactory)"

text \<open>Modelled from the spec: the marginal rank threshold \<open>GST_RANK_MARGINAL\<close>; the
  constant is declared in the framework's headers (\<open>GstRank\<close>), where its value is 64.\<close>

definition GST_RANK_MARGINAL :: "32 word" where
  "GST_RANK_MARGINAL = 64"

definition gst_auto_video_src_factory_filter :: "feature \<Rightarrow> bool" where
  "gst_auto_video_src_factory_filter f =
     (if \<not> GST_IS_ELEMENT_FACTORY f then False
      else if \<not> (strstr (fklass f) ''Source'' \<and> strstr (fklass f) ''Video'') then False
      else if frank f < GST_RANK_MARGINAL then False
      else True)"

text \<open>The ranks are \<open>guint\<close>: the difference is taken modulo \<open>2^32\<close> and then read as a
  \<open>gint\<close>.\<close>

definition gst_auto_video_src_compare_ranks :: "feature \<Rightarrow> feature \<Rightarrow> int" where
  "gst_auto_video_src_compare_ranks f1 f2 =
     (let diff = sint (frank f2 - frank f1)
      in if diff \<noteq> 0 then diff else strcmp (fname f2) (fname f1))"

text \<open>GLib's \<open>g_list_sort\<close> is a merge sort: the list is cut after its first
  \<open>n div 2\<close> cells, both halves are sorted, and the merge takes from the first half
  whenever the comparison is \<open>\<le> 0\<close>.\<close>

fun g_list_sort_merge :: "('a \<Rightarrow> 'a \<Rightarrow> int) \<Rightarrow> 'a list \<Rightarrow> 'a list \<Rightarrow> 'a list" where
  "g_list_sort_merge cmp [] l2 = l2"
| "g_list_sort_merge cmp (a # l1) [] = a # l1"
| "g_list_sort_merge cmp (a # l1) (b # l2) =
     (if cmp a b \<le> 0 then a # g_list_sort_merge cmp l1 (b # l2)
      else b # g_list_sort_merge cmp (a # l1) l2)"

function g_list_sort :: "('a \<Rightarrow> 'a \<Rightarrow> int) \<Rightarrow> 'a list \<Rightarrow> 'a list" where
  "g_list_sort cmp list =
     (if length list \<le> 1 then list
      else g_list_sort_merge cmp
             (g_list_sort cmp (take (length list div 2) list))
             (g_list_sort cmp (drop (length list div 2) list)))"
  by pat_completeness auto
termination
  by (relation "measure (\<lambda>(cmp, list). length list)") auto

declare g_list_sort.simps [simp del]

section \<open>The generated element name\<close>

definition pretty_marker :: "string \<Rightarrow> fault + char list" where
  "pretty_marker name =
     (let marker = g_strdup name
      in case (if g_str_has_suffix marker ''src''
               then store_char marker (word_of_nat (strlen marker) - 4) NUL
               else Inr marker) of
           Inl e \<Rightarrow> Inl e
         | Inr marker \<Rightarrow>
             Inr (if g_str_has_prefix marker ''gst''
                  then g_memmove marker 3 (strlen (drop 3 marker) + 1)
                  else marker))"

definition pretty_name :: "string \<Rightarrow> string \<Rightarrow> fault + string" where
  "pretty_name obj_name name =
     (case pretty_marker name of
        Inl e \<Rightarrow> Inl e
      | Inr marker \<Rightarrow> Inr (obj_name @ ''-actual-src-'' @ c_str marker))"


section \<open>Elements, messages and the framework\<close>

type_synonym caps = string

datatype gst_state = GST_STATE_NULL | GST_STATE_READY

datatype state_change_return =
  GST_STATE_CHANGE_FAILURE | GST_STATE_CHANGE_SUCCESS
| GST_STATE_CHANGE_ASYNC | GST_STATE_CHANGE_NO_PREROLL

datatype state_change =
  GST_STATE_CHANGE_NULL_TO_READY | GST_STATE_CHANGE_READY_TO_PAUSED
| GST_STATE_CHANGE_PAUSED_TO_PLAYING | GST_STATE_CHANGE_PLAYING_TO_PAUSED
| GST_STATE_CHANGE_PAUSED_TO_READY | GST_STATE_CHANGE_READY_TO_NULL

datatype message_type = GST_MESSAGE_ERROR | GST_MESSAGE_WARNING | GST_MESSAGE_OTHER

record message =
  msg_type :: message_type
  msg_src :: string
  msg_domain :: string
  msg_text :: string

record element =
  el_name :: string
  el_factory :: string
  el_sync :: bool

text \<open>The calls made on elements, in order: the instrumentation the claims about trial
  activations are stated on.  \<open>FactoryCreate\<close> carries the factory's name, the name asked
  for and whether an element came back.\<close>

datatype call =
  FactoryCreate string string bool
| CanIntersect caps element
| SetState element gst_state
| Unref element

text \<open>
  What the framework and the candidates decide, as parameters: the features the registry
  holds, whether a factory can create its element, the caps of an element's \<open>src\<close> pad, the
  intersection test on caps, what driving an element to READY returns and posts on the
  element's bus, whether the ghost pad accepts an element's pad as its target, what the
  parent class's \<open>change_state\<close> returns, and whether an element's class has a \<open>sync\<close>
  property.
\<close>

record env =
  registry :: "feature list"
  factory_creates :: "feature \<Rightarrow> bool"
  pad_caps :: "element \<Rightarrow> caps"
  gst_caps_can_intersect :: "caps \<Rightarrow> caps \<Rightarrow> bool"
  set_state_ready :: "element \<Rightarrow> state_change_return \<times> message list"
  ghost_pad_accepts :: "element \<Rightarrow> bool"
  parent_change_state :: "state_change \<Rightarrow> state_change_return"
  class_has_sync :: "element \<Rightarrow> bool"

text \<open>The facade (the struct's declaration is in a header outside the source file; the
  fields are those the functions use, \<open>kid\<close>, \<open>pad\<close> and \<open>filter_caps\<close>): its name, the bound component, the target of its ghost pad as
  \<open>gst_ghost_pad_set_target\<close> last left it (the element whose \<open>src\<close> pad it proxies), the
  filter caps, the contents of the bin, the messages it has posted (oldest first) and the
  calls made on elements so far.\<close>

record GstAutoVideoSrc =
  obj_name :: string
  kid :: "element option"
  pad_target :: "element option"
  filter_caps :: "caps option"
  children :: "element list"
  posted :: "message list"
  trace :: "call list"

datatype prop_id = PROP_0 | PROP_CAPS | PROP_UNKNOWN nat

definition gst_element_factory_make :: "string \<Rightarrow> string \<Rightarrow> element" where
  "gst_element_factory_make factoryname name =
     \<lparr>el_name = name, el_factory = factoryname, el_sync = False\<rparr>"

definition gst_element_factory_create :: "env \<Rightarrow> feature \<Rightarrow> string \<Rightarrow> element option" where
  "gst_element_factory_create env f name =
     (if factory_creates env f
      then Some \<lparr>el_name = name, el_factory = fname f, el_sync = False\<rparr>
      else None)"

text \<open>\<open>gst_ghost_pad_set_target\<close>: the new target on success; on failure the ghost pad
  is left without a target.\<close>

definition gst_ghost_pad_set_target ::
  "env \<Rightarrow> GstAutoVideoSrc \<Rightarrow> element \<Rightarrow> bool \<times> GstAutoVideoSrc" where
  "gst_ghost_pad_set_target env src el =
     (if ghost_pad_accepts env el then (True, src\<lparr>pad_target := Some el\<rparr>)
      else (False, src\<lparr>pad_target := None\<rparr>))"

definition gst_element_post_message :: "GstAutoVideoSrc \<Rightarrow> message \<Rightarrow> GstAutoVideoSrc" where
  "gst_element_post_message src m = src\<lparr>posted := posted src @ [m]\<rparr>"

definition GST_ELEMENT_ERROR :: "GstAutoVideoSrc \<Rightarrow> string \<Rightarrow> string \<Rightarrow> GstAutoVideoSrc" where
  "GST_ELEMENT_ERROR src domain debug =
     gst_element_post_message src
       \<lparr>msg_type = GST_MESSAGE_ERROR, msg_src = obj_name src, msg_domain = domain,
        msg_text = debug\<rparr>"

definition GST_ELEMENT_WARNING :: "GstAutoVideoSrc \<Rightarrow> string \<Rightarrow> string \<Rightarrow> GstAutoVideoSrc" where
  "GST_ELEMENT_WARNING src domain debug =
     gst_element_post_message src
       \<lparr>msg_type = GST_MESSAGE_WARNING, msg_src = obj_name src, msg_domain = domain,
        msg_text = debug\<rparr>"

section \<open>The facade\<close>

definition gst_auto_video_src_clear_kid :: "GstAutoVideoSrc \<Rightarrow> GstAutoVideoSrc" where
  "gst_auto_video_src_clear_kid src =
     (case kid src of
        Some k \<Rightarrow>
          src\<lparr>trace := trace src @ [SetState k GST_STATE_NULL],
              children := remove1 k (children src),
              kid := None\<rparr>
      | None \<Rightarrow> src)"

definition gst_auto_video_src_reset :: "env \<Rightarrow> GstAutoVideoSrc \<Rightarrow> GstAutoVideoSrc" where
  "gst_auto_video_src_reset env src0 =
     (let src = gst_auto_video_src_clear_kid src0;
          k = gst_element_factory_make ''fakesrc'' ''tempsrc'';
          src = src\<lparr>kid := Some k, children := children src @ [k]\<rparr>
      in snd (gst_ghost_pad_set_target env src k))"

definition raw_caps :: caps where
  "raw_caps = ''video/x-raw-yuv; video/x-raw-rgb''"

definition gst_auto_video_src_init :: "env \<Rightarrow> string \<Rightarrow> GstAutoVideoSrc" where
  "gst_auto_video_src_init env name =
     (let src = \<lparr>obj_name = name, kid = None, pad_target = None, filter_caps = None,
                 children = [], posted = [], trace = []\<rparr>;
          src = gst_auto_video_src_reset env src
      in src\<lparr>filter_caps := Some raw_caps\<rparr>)"

definition gst_auto_video_src_dispose :: "GstAutoVideoSrc \<Rightarrow> GstAutoVideoSrc" where
  "gst_auto_video_src_dispose src =
     (gst_auto_video_src_clear_kid src)\<lparr>filter_caps := None\<rparr>"

definition gst_auto_video_src_create_element_with_pretty_name ::
  "env \<Rightarrow> GstAutoVideoSrc \<Rightarrow> feature \<Rightarrow> fault + (string \<times> element option)" where
  "gst_auto_video_src_create_element_with_pretty_name env src factory =
     (case pretty_name (obj_name src) (fname factory) of
        Inl e \<Rightarrow> Inl e
      | Inr name \<Rightarrow> Inr (name, gst_element_factory_create env factory name))"

text \<open>The locals of \<open>gst_auto_video_src_find_best\<close> that the loop changes, and the calls
  it makes.\<close>

record probe =
  choice :: "element option"
  errors :: "message list"
  bus :: "message list"
  calls :: "call list"

fun gst_bus_pop_filtered :: "message list \<Rightarrow> message_type \<Rightarrow> message option \<times> message list" where
  "gst_bus_pop_filtered [] t = (None, [])"
| "gst_bus_pop_filtered (m # ms) t =
     (if msg_type m = t then (Some m, ms) else gst_bus_pop_filtered ms t)"

lemma gst_bus_pop_filtered_shorter:
  "gst_bus_pop_filtered ms t = (Some m, ms') \<Longrightarrow> length ms' < length ms"
  by (induction ms) (auto split: if_splits intro: less_SucI)

text \<open>The loop \<open>while ((message = gst_bus_pop_filtered (bus, GST_MESSAGE_ERROR)))\<close>: it
  returns what is left on the bus and the error list.\<close>

function collect_errors :: "message list \<Rightarrow> message list \<Rightarrow> message list \<times> message list" where
  "collect_errors b errs =
     (case gst_bus_pop_filtered b GST_MESSAGE_ERROR of
        (Some message, b') \<Rightarrow> collect_errors b' (errs @ [message])
      | (None, b') \<Rightarrow> (b', errs))"
  by pat_completeness auto
termination
  by (relation "measure (\<lambda>(b, errs). length b)")
     (auto dest: gst_bus_pop_filtered_shorter [OF sym])

declare collect_errors.simps [simp del]

text \<open>The trial activation of a created and compatible element (from
  \<open>gst_element_set_bus\<close> to the end of the loop body): the flag says whether the loop
  breaks.\<close>

definition find_best_trial :: "env \<Rightarrow> element \<Rightarrow> probe \<Rightarrow> bool \<times> probe" where
  "find_best_trial env el p0 =
     (let ret = fst (set_state_ready env el);
          p = p0\<lparr>bus := bus p0 @ snd (set_state_ready env el),
                 calls := calls p0 @ [SetState el GST_STATE_READY]\<rparr>
      in if ret = GST_STATE_CHANGE_SUCCESS then (True, p\<lparr>choice := Some el\<rparr>)
         else (False,
               p\<lparr>bus := fst (collect_errors (bus p) (errors p)),
                  errors := snd (collect_errors (bus p) (errors p)),
                  calls := calls p @ [SetState el GST_STATE_NULL, Unref el]\<rparr>))"

text \<open>One pass through the body of the \<open>for\<close> loop.\<close>

definition find_best_body ::
  "env \<Rightarrow> GstAutoVideoSrc \<Rightarrow> feature \<Rightarrow> probe \<Rightarrow> fault + (bool \<times> probe)" where
  "find_best_body env src f p0 =
     (case gst_auto_video_src_create_element_with_pretty_name env src f of
        Inl e \<Rightarrow> Inl e
      | Inr (name, r) \<Rightarrow>
          (let p = p0\<lparr>calls := calls p0 @ [FactoryCreate (fname f) name (r \<noteq> None)]\<rparr>
           in case r of
                None \<Rightarrow> Inr (False, p)
              | Some el \<Rightarrow>
                  (case filter_caps src of
                     None \<Rightarrow> Inr (find_best_trial env el p)
                   | Some fc \<Rightarrow>
                       (let no_match = \<not> gst_caps_can_intersect env fc (pad_caps env el);
                            p = p\<lparr>calls := calls p @ [CanIntersect fc el]\<rparr>
                        in if no_match then Inr (False, p\<lparr>calls := calls p @ [Unref el]\<rparr>)
                           else Inr (find_best_trial env el p)))))"

fun find_best_loop ::
  "env \<Rightarrow> GstAutoVideoSrc \<Rightarrow> feature list \<Rightarrow> probe \<Rightarrow> fault + probe" where
  "find_best_loop env src [] p = Inr p"
| "find_best_loop env src (f # items) p =
     (case find_best_body env src f p of
        Inl e \<Rightarrow> Inl e
      | Inr (True, p') \<Rightarrow> Inr p'
      | Inr (False, p') \<Rightarrow> find_best_loop env src items p')"

text \<open>After the loop (\<open>done trying\<close>): repost the first error, or warn and fall back to
  a fakesrc.\<close>

definition find_best_finish ::
  "env \<Rightarrow> GstAutoVideoSrc \<Rightarrow> probe \<Rightarrow> element option \<times> GstAutoVideoSrc" where
  "find_best_finish env src p =
     (case choice p of
        Some c \<Rightarrow> (Some c, src)
      | None \<Rightarrow>
          (case errors p of
             e # es \<Rightarrow> (None, gst_element_post_message src e)
           | [] \<Rightarrow>
               (let src = GST_ELEMENT_WARNING src ''RESOURCE_NOT_FOUND''
                            ''Failed to find a usable video source'';
                    c = gst_element_factory_make ''fakesrc'' ''fake-video-src'';
                    c = (if class_has_sync env c then c\<lparr>el_sync := True\<rparr> else c)
                in (Some c, src\<lparr>trace := trace src @ [SetState c GST_STATE_READY]\<rparr>))))"

text \<open>\<open>gst_registry_feature_filter\<close>: the features of the registry that pass the
  filter, or the first of them only.\<close>

definition gst_registry_feature_filter ::
  "feature list \<Rightarrow> (feature \<Rightarrow> bool) \<Rightarrow> bool \<Rightarrow> feature list" where
  "gst_registry_feature_filter reg flt first =
     (if first then take 1 (filter flt reg) else filter flt reg)"

text \<open>The first two statements of \<open>gst_auto_video_src_find_best\<close>: query, then sort.\<close>

definition ranked_candidates :: "env \<Rightarrow> feature list" where
  "ranked_candidates env =
     g_list_sort gst_auto_video_src_compare_ranks
       (gst_registry_feature_filter (registry env) gst_auto_video_src_factory_filter False)"

definition probe_init :: probe where
  "probe_init = \<lparr>choice = None, errors = [], bus = [], calls = []\<rparr>"

definition gst_auto_video_src_find_best ::
  "env \<Rightarrow> GstAutoVideoSrc \<Rightarrow> fault + (element option \<times> GstAutoVideoSrc)" where
  "gst_auto_video_src_find_best env src =
     (case find_best_loop env src (ranked_candidates env) probe_init of
        Inl e \<Rightarrow> Inl e
      | Inr p \<Rightarrow> Inr (find_best_finish env (src\<lparr>trace := trace src @ calls p\<rparr>) p))"

definition gst_auto_video_src_detect ::
  "env \<Rightarrow> GstAutoVideoSrc \<Rightarrow> fault + (bool \<times> GstAutoVideoSrc)" where
  "gst_auto_video_src_detect env src0 =
     (case gst_auto_video_src_find_best env (gst_auto_video_src_clear_kid src0) of
        Inl e \<Rightarrow> Inl e
      | Inr (None, src) \<Rightarrow>
          Inr (False, GST_ELEMENT_ERROR src ''LIBRARY_INIT''
                        ''Failed to find a supported video source'')
      | Inr (Some esrc, src) \<Rightarrow>
          (case gst_ghost_pad_set_target env
                  (src\<lparr>kid := Some esrc, children := children src @ [esrc]\<rparr>) esrc of
             (False, src) \<Rightarrow>
               Inr (False, GST_ELEMENT_ERROR src ''LIBRARY_INIT'' ''Failed to set target pad'')
           | (True, src) \<Rightarrow> Inr (True, src)))"

definition gst_auto_video_src_change_state ::
  "env \<Rightarrow> GstAutoVideoSrc \<Rightarrow> state_change \<Rightarrow> fault + (state_change_return \<times> GstAutoVideoSrc)" where
  "gst_auto_video_src_change_state env src0 transition =
     (case (if transition = GST_STATE_CHANGE_NULL_TO_READY
            then gst_auto_video_src_detect env src0 else Inr (True, src0)) of
        Inl e \<Rightarrow> Inl e
      | Inr (False, src) \<Rightarrow> Inr (GST_STATE_CHANGE_FAILURE, src)
      | Inr (True, src) \<Rightarrow>
          Inr (parent_change_state env transition,
               if transition = GST_STATE_CHANGE_READY_TO_NULL
               then gst_auto_video_src_reset env src else src))"

definition gst_auto_video_src_set_property ::
  "GstAutoVideoSrc \<Rightarrow> prop_id \<Rightarrow> caps option \<Rightarrow> GstAutoVideoSrc" where
  "gst_auto_video_src_set_property src pid v =
     (case pid of PROP_CAPS \<Rightarrow> src\<lparr>filter_caps := v\<rparr> | _ \<Rightarrow> src)"

definition gst_auto_video_src_get_property ::
  "GstAutoVideoSrc \<Rightarrow> prop_id \<Rightarrow> caps option \<Rightarrow> caps option" where
  "gst_auto_video_src_get_property src pid v =
     (case pid of PROP_CAPS \<Rightarrow> filter_caps src | _ \<Rightarrow> v)"

definition is_placeholder :: "element \<Rightarrow> bool" where
  "is_placeholder el = (el_factory el = ''fakesrc'')"

section \<open>Vocabulary of the properties\<close>


definition tempsrc :: element where
  "tempsrc = gst_element_factory_make ''fakesrc'' ''tempsrc''"

definition fake_video_src :: "env \<Rightarrow> element" where
  "fake_video_src env =
     (let c = gst_element_factory_make ''fakesrc'' ''fake-video-src''
      in if class_has_sync env c then c\<lparr>el_sync := True\<rparr> else c)"

definition is_error :: "message \<Rightarrow> bool" where
  "is_error m = (msg_type m = GST_MESSAGE_ERROR)"

definition compatible :: "env \<Rightarrow> caps option \<Rightarrow> element \<Rightarrow> bool" where
  "compatible env fc el =
     (case fc of None \<Rightarrow> True | Some c \<Rightarrow> gst_caps_can_intersect env c (pad_caps env el))"

text \<open>What happens to one candidate when the loop reaches it.\<close>

datatype outcome =
  Faulted | NotCreated string | Incompatible element | TrialFailed element | TrialWorked element

definition candidate_outcome :: "env \<Rightarrow> GstAutoVideoSrc \<Rightarrow> feature \<Rightarrow> outcome" where
  "candidate_outcome env src f =
     (case gst_auto_video_src_create_element_with_pretty_name env src f of
        Inl e \<Rightarrow> Faulted
      | Inr (name, None) \<Rightarrow> NotCreated name
      | Inr (name, Some el) \<Rightarrow>
          if \<not> compatible env (filter_caps src) el then Incompatible el
          else if fst (set_state_ready env el) = GST_STATE_CHANGE_SUCCESS then TrialWorked el
          else TrialFailed el)"

fun rejected :: "outcome \<Rightarrow> bool" where
  "rejected (NotCreated n) = True"
| "rejected (Incompatible el) = True"
| "rejected (TrialFailed el) = True"
| "rejected Faulted = False"
| "rejected (TrialWorked el) = False"

text \<open>The errors a candidate leaves on the private bus when its trial fails.\<close>

definition candidate_errors :: "env \<Rightarrow> GstAutoVideoSrc \<Rightarrow> feature \<Rightarrow> message list" where
  "candidate_errors env src f =
     (case candidate_outcome env src f of
        TrialFailed el \<Rightarrow> filter is_error (snd (set_state_ready env el))
      | _ \<Rightarrow> [])"

definition caps_calls :: "caps option \<Rightarrow> element \<Rightarrow> call list" where
  "caps_calls fc el = (case fc of None \<Rightarrow> [] | Some c \<Rightarrow> [CanIntersect c el])"

text \<open>The calls made for one candidate.\<close>

definition candidate_calls :: "env \<Rightarrow> GstAutoVideoSrc \<Rightarrow> feature \<Rightarrow> call list" where
  "candidate_calls env src f =
     (case candidate_outcome env src f of
        Faulted \<Rightarrow> []
      | NotCreated name \<Rightarrow> [FactoryCreate (fname f) name False]
      | Incompatible el \<Rightarrow>
          FactoryCreate (fname f) (el_name el) True # caps_calls (filter_caps src) el @ [Unref el]
      | TrialFailed el \<Rightarrow>
          FactoryCreate (fname f) (el_name el) True # caps_calls (filter_caps src) el @
          [SetState el GST_STATE_READY, SetState el GST_STATE_NULL, Unref el]
      | TrialWorked el \<Rightarrow>
          FactoryCreate (fname f) (el_name el) True # caps_calls (filter_caps src) el @
          [SetState el GST_STATE_READY])"


definition error_no_src :: "GstAutoVideoSrc \<Rightarrow> message" where
  "error_no_src src =
     \<lparr>msg_type = GST_MESSAGE_ERROR, msg_src = obj_name src,
      msg_domain = ''LIBRARY_INIT'', msg_text = ''Failed to find a supported video source''\<rparr>"

definition error_target_failed :: "GstAutoVideoSrc \<Rightarrow> message" where
  "error_target_failed src =
     \<lparr>msg_type = GST_MESSAGE_ERROR, msg_src = obj_name src,
      msg_domain = ''LIBRARY_INIT'', msg_text = ''Failed to set target pad''\<rparr>"

section \<open>Scenarios\<close>

definition video_source :: "string \<Rightarrow> 32 word \<Rightarrow> feature" where
  "video_source n r =
     \<lparr>ftype = ElementFactory, fname = n, frank = r, fklass = ''Source/Video''\<rparr>"

definition device_error :: "string \<Rightarrow> string \<Rightarrow> message" where
  "device_error s t =
     \<lparr>msg_type = GST_MESSAGE_ERROR, msg_src = s, msg_domain = ''RESOURCE_OPEN_READ'',
      msg_text = t\<rparr>"

text \<open>A framework in which every factory creates its element, an element's caps are
  named after its factory by \<open>capsof\<close>, caps intersect the raw-video filter when they are
  one of its two structures (and any other filter when they are equal to it), the ghost
  pad accepts every element, and the parent class's state change succeeds.\<close>

definition scenario ::
  "feature list \<Rightarrow> (string \<Rightarrow> caps) \<Rightarrow> (element \<Rightarrow> state_change_return \<times> message list) \<Rightarrow> env" where
  "scenario reg capsof ready =
     \<lparr>registry = reg,
      factory_creates = (\<lambda>f. True),
      pad_caps = (\<lambda>el. capsof (el_factory el)),
      gst_caps_can_intersect =
        (\<lambda>a b. a = b \<or> (a = raw_caps \<and> (b = ''video/x-raw-yuv'' \<or> b = ''video/x-raw-rgb''))),
      set_state_ready = ready,
      ghost_pad_accepts = (\<lambda>el. True),
      parent_change_state = (\<lambda>t. GST_STATE_CHANGE_SUCCESS),
      class_has_sync = (\<lambda>el. True)\<rparr>"

definition raw_yuv :: "string \<Rightarrow> caps" where
  "raw_yuv n = ''video/x-raw-yuv''"

text \<open>The specification's scenario: \<open>drvA\<close> (rank 128) fails its state change with two
  errors, \<open>drvB\<close> (rank 64) succeeds; \<open>drv0\<close> (rank 64) would succeed as well.\<close>

definition drvA_fails :: "element \<Rightarrow> state_change_return \<times> message list" where
  "drvA_fails el =
     (if el_factory el = ''drvA''
      then (GST_STATE_CHANGE_FAILURE,
            [device_error (el_name el) ''device busy'', device_error (el_name el) ''giving up''])
      else (GST_STATE_CHANGE_SUCCESS, []))"

definition env_fallback :: env where
  "env_fallback =
     scenario [video_source ''drv0'' 64, video_source ''drvB'' 64, video_source ''drvA'' 128]
       raw_yuv drvA_fails"

text \<open>Every candidate fails: \<open>drvA\<close> with two errors, \<open>drvB\<close> with one.\<close>

definition all_fail :: "element \<Rightarrow> state_change_return \<times> message list" where
  "all_fail el =
     (if el_factory el = ''drvA''
      then (GST_STATE_CHANGE_FAILURE,
            [device_error (el_name el) ''device busy'', device_error (el_name el) ''giving up''])
      else (GST_STATE_CHANGE_FAILURE, [device_error (el_name el) ''no such device'']))"

definition env_all_fail :: env where
  "env_all_fail =
     scenario [video_source ''drvB'' 64, video_source ''drvA'' 128] raw_yuv all_fail"


text \<open>\<open>drvA\<close> offers JPEG only, so it does not intersect the raw-video filter.\<close>

definition jpeg_drvA :: "string \<Rightarrow> caps" where
  "jpeg_drvA n = (if n = ''drvA'' then ''image/jpeg'' else ''video/x-raw-yuv'')"

definition env_jpeg :: env where
  "env_jpeg =
     scenario [video_source ''drvB'' 64, video_source ''drvA'' 128] jpeg_drvA drvA_fails"

text \<open>The states the scenarios end in.\<close>

definition candidate_element :: "string \<Rightarrow> element" where
  "candidate_element n =
     \<lparr>el_name = ''auto-actual-src-'' @ n, el_factory = n, el_sync = False\<rparr>"

definition trial_calls :: "string \<Rightarrow> call list" where
  "trial_calls n =
     [FactoryCreate n (''auto-actual-src-'' @ n) True,
      CanIntersect raw_caps (candidate_element n),
      SetState (candidate_element n) GST_STATE_READY]"

definition release_calls :: "string \<Rightarrow> call list" where
  "release_calls n =
     [SetState (candidate_element n) GST_STATE_NULL, Unref (candidate_element n)]"

definition after_all_fail :: GstAutoVideoSrc where
  "after_all_fail =
     \<lparr>obj_name = ''auto'', kid = None, pad_target = Some tempsrc,
      filter_caps = Some raw_caps, children = [],
      posted = [device_error ''auto-actual-src-drvA'' ''device busy'',
                \<lparr>msg_type = GST_MESSAGE_ERROR, msg_src = ''auto'',
                 msg_domain = ''LIBRARY_INIT'',
                 msg_text = ''Failed to find a supported video source''\<rparr>],
      trace = SetState tempsrc GST_STATE_NULL #
              trial_calls ''drvA'' @ release_calls ''drvA'' @
              trial_calls ''drvB'' @ release_calls ''drvB''\<rparr>"

definition active_drvB :: GstAutoVideoSrc where
  "active_drvB =
     \<lparr>obj_name = ''auto'', kid = Some (candidate_element ''drvB''),
      pad_target = Some (candidate_element ''drvB''),
      filter_caps = Some raw_caps, children = [candidate_element ''drvB''],
      posted = [],
      trace = SetState tempsrc GST_STATE_NULL #
              trial_calls ''drvA'' @ release_calls ''drvA'' @ trial_calls ''drvB''\<rparr>"

text \<open>Projections of a list of calls: the factories asked for an element, and the
  elements driven to READY.\<close>

fun instantiations :: "call list \<Rightarrow> string list" where
  "instantiations [] = []"
| "instantiations (FactoryCreate n m b # cs) = n # instantiations cs"
| "instantiations (CanIntersect c el # cs) = instantiations cs"
| "instantiations (SetState el st # cs) = instantiations cs"
| "instantiations (Unref el # cs) = instantiations cs"

fun trial_activations :: "call list \<Rightarrow> element list" where
  "trial_activations [] = []"
| "trial_activations (SetState el st # cs) =
     (if st = GST_STATE_READY then el # trial_activations cs else trial_activations cs)"
| "trial_activations (FactoryCreate n m b # cs) = trial_activations cs"
| "trial_activations (CanIntersect c el # cs) = trial_activations cs"
| "trial_activations (Unref el # cs) = trial_activations cs"

text \<open>The element a candidate's trial is made on, if the loop gets that far.\<close>

definition tried :: "env \<Rightarrow> GstAutoVideoSrc \<Rightarrow> feature \<Rightarrow> element list" where
  "tried env src f =
     (case candidate_outcome env src f of
        TrialFailed el \<Rightarrow> [el]
      | TrialWorked el \<Rightarrow> [el]
      | _ \<Rightarrow> [])"

definition probe_calls :: "env \<Rightarrow> GstAutoVideoSrc \<Rightarrow> feature list \<Rightarrow> call list" where
  "probe_calls env src fs = concat (map (candidate_calls env src) fs)"

definition probe_errors :: "env \<Rightarrow> GstAutoVideoSrc \<Rightarrow> feature list \<Rightarrow> message list" where
  "probe_errors env src fs = concat (map (candidate_errors env src) fs)"

section \<open>String and buffer lemmas\<close>













lemma starts_with_iff: "starts_with n h \<longleftrightarrow> (\<exists>q. h = n @ q)"
  by (induction n h rule: starts_with.induct) auto

lemma strstr_iff: "strstr hay needle \<longleftrightarrow> (\<exists>p q. hay = p @ needle @ q)"
proof (induction hay)
  case Nil
  then show ?case by auto
next
  case (Cons h hs)
  show ?case
  proof
    assume "strstr (h # hs) needle"
    then consider "starts_with needle (h # hs)" | "strstr hs needle" by auto
    then show "\<exists>p q. h # hs = p @ needle @ q"
    proof cases
      case 1
      then obtain q where "h # hs = needle @ q" by (auto simp: starts_with_iff)
      then have "h # hs = [] @ needle @ q" by simp
      then show ?thesis by blast
    next
      case 2
      then obtain p q where "hs = p @ needle @ q" using Cons.IH by auto
      then have "h # hs = (h # p) @ needle @ q" by simp
      then show ?thesis by blast
    qed
  next
    assume "\<exists>p q. h # hs = p @ needle @ q"
    then obtain p q where pq: "h # hs = p @ needle @ q" by blast
    show "strstr (h # hs) needle"
    proof (cases p)
      case Nil
      then have "starts_with needle (h # hs)" using pq by (auto simp: starts_with_iff)
      then show ?thesis by simp
    next
      case (Cons a p')
      then have "hs = p' @ needle @ q" using pq by simp
      then have "strstr hs needle" using Cons.IH by blast
      then show ?thesis by simp
    qed
  qed
qed


section \<open>The probing loop\<close>

lemma collect_errors_eq:
  "collect_errors b errs = ([], errs @ filter is_error b)"
proof (induction b arbitrary: errs)
  case Nil
  show ?case by (subst collect_errors.simps) simp
next
  case (Cons m ms)
  show ?case
  proof (cases "msg_type m = GST_MESSAGE_ERROR")
    case True
    then have "is_error m" by (simp add: is_error_def)
    with True show ?thesis
      by (subst collect_errors.simps) (simp add: Cons.IH)
  next
    case False
    have "collect_errors (m # ms) errs = collect_errors ms errs"
      using False
      by (subst collect_errors.simps, subst (2) collect_errors.simps) simp
    moreover have "\<not> is_error m" using False by (simp add: is_error_def)
    ultimately show ?thesis by (simp add: Cons.IH)
  qed
qed

lemma find_best_trial_worked:
  assumes "fst (set_state_ready env el) = GST_STATE_CHANGE_SUCCESS"
  shows "find_best_trial env el p =
           (True, p\<lparr>choice := Some el,
                    bus := bus p @ snd (set_state_ready env el),
                    calls := calls p @ [SetState el GST_STATE_READY]\<rparr>)"
  using assms by (simp add: find_best_trial_def)

lemma find_best_trial_failed:
  assumes "fst (set_state_ready env el) \<noteq> GST_STATE_CHANGE_SUCCESS" "bus p = []"
  shows "find_best_trial env el p =
           (False, p\<lparr>errors := errors p @ filter is_error (snd (set_state_ready env el)),
                     bus := [],
                     calls := calls p @ [SetState el GST_STATE_READY, SetState el GST_STATE_NULL,
                                         Unref el]\<rparr>)"
  using assms by (simp add: find_best_trial_def collect_errors_eq)

lemma find_best_body_rejected:
  assumes "rejected (candidate_outcome env src f)" "bus p = []"
  shows "find_best_body env src f p =
           Inr (False, p\<lparr>errors := errors p @ candidate_errors env src f,
                         bus := [],
                         calls := calls p @ candidate_calls env src f\<rparr>)"
proof (cases "gst_auto_video_src_create_element_with_pretty_name env src f")
  case (Inl e)
  then show ?thesis using assms by (simp add: candidate_outcome_def)
next
  case (Inr nr)
  obtain name r where nr: "nr = (name, r)" by (cases nr)
  show ?thesis
  proof (cases r)
    case None
    then show ?thesis
      using Inr nr assms(2)
      by (simp add: find_best_body_def candidate_outcome_def candidate_errors_def
          candidate_calls_def)
  next
    case (Some el)
    have nm: "el_name el = name"
      using Inr nr Some
      by (auto simp: gst_auto_video_src_create_element_with_pretty_name_def
          gst_element_factory_create_def split: sum.splits if_splits)
    show ?thesis
    proof (cases "compatible env (filter_caps src) el")
      case False
      then show ?thesis
        using Inr nr Some assms(2) nm
        by (auto simp: find_best_body_def candidate_outcome_def candidate_errors_def
            candidate_calls_def compatible_def caps_calls_def split: option.splits)
    next
      case True
      then have nw: "fst (set_state_ready env el) \<noteq> GST_STATE_CHANGE_SUCCESS"
        using Inr nr Some assms(1) by (auto simp: candidate_outcome_def split: if_splits)
      show ?thesis
        using Inr nr Some True nw nm assms(2)
        by (auto simp: find_best_body_def candidate_outcome_def candidate_errors_def
            candidate_calls_def compatible_def caps_calls_def find_best_trial_failed
            split: option.splits)
    qed
  qed
qed

lemma find_best_body_worked:
  assumes "candidate_outcome env src f = TrialWorked el"
  shows "find_best_body env src f p =
           Inr (True, p\<lparr>choice := Some el,
                        bus := bus p @ snd (set_state_ready env el),
                        calls := calls p @ candidate_calls env src f\<rparr>)"
proof -
  obtain name where cr: "gst_auto_video_src_create_element_with_pretty_name env src f = Inr (name, Some el)"
    and co: "compatible env (filter_caps src) el"
    and ok: "fst (set_state_ready env el) = GST_STATE_CHANGE_SUCCESS"
    using assms
    by (auto simp: candidate_outcome_def split: sum.splits option.splits if_splits)
  have nm: "el_name el = name"
    using cr
    by (auto simp: gst_auto_video_src_create_element_with_pretty_name_def
        gst_element_factory_create_def split: sum.splits if_splits)
  show ?thesis
    using cr co ok nm assms
    by (auto simp: find_best_body_def candidate_calls_def compatible_def caps_calls_def
        find_best_trial_worked split: option.splits)
qed

lemma find_best_loop_rejected:
  assumes "\<forall>f \<in> set pre. rejected (candidate_outcome env src f)" "bus p = []"
  shows "find_best_loop env src (pre @ rest) p =
           find_best_loop env src rest
             (p\<lparr>errors := errors p @ concat (map (candidate_errors env src) pre),
                bus := [],
                calls := calls p @ concat (map (candidate_calls env src) pre)\<rparr>)"
  using assms
proof (induction pre arbitrary: p)
  case Nil
  then have "p\<lparr>bus := []\<rparr> = p" by (cases p) simp
  then show ?case by simp
next
  case (Cons f pre)
  have "find_best_body env src f p =
          Inr (False, p\<lparr>errors := errors p @ candidate_errors env src f, bus := [],
                        calls := calls p @ candidate_calls env src f\<rparr>)"
    using Cons.prems by (simp add: find_best_body_rejected)
  then show ?case using Cons.prems by (simp add: Cons.IH)
qed

section \<open>The facade and the traces\<close>

lemma clear_kid_fields:
  "obj_name (gst_auto_video_src_clear_kid s) = obj_name s"
  "filter_caps (gst_auto_video_src_clear_kid s) = filter_caps s"
  "posted (gst_auto_video_src_clear_kid s) = posted s"
  "pad_target (gst_auto_video_src_clear_kid s) = pad_target s"
  "kid (gst_auto_video_src_clear_kid s) = None"
  by (simp_all add: gst_auto_video_src_clear_kid_def split: option.splits)

lemma create_cong:
  assumes "obj_name s = obj_name s'"
  shows "gst_auto_video_src_create_element_with_pretty_name env s f =
         gst_auto_video_src_create_element_with_pretty_name env s' f"
  using assms by (simp add: gst_auto_video_src_create_element_with_pretty_name_def)

lemma find_best_body_cong:
  assumes "obj_name s = obj_name s'" "filter_caps s = filter_caps s'"
  shows "find_best_body env s f p = find_best_body env s' f p"
  by (simp only: find_best_body_def create_cong [OF assms(1)] assms(2))

lemma find_best_loop_cong:
  assumes "obj_name s = obj_name s'" "filter_caps s = filter_caps s'"
  shows "find_best_loop env s items p = find_best_loop env s' items p"
  by (induction items arbitrary: p)
     (simp_all add: find_best_body_cong [OF assms] split: sum.splits prod.splits bool.splits)

lemma find_best_loop_clear_kid:
  "find_best_loop env (gst_auto_video_src_clear_kid s) items p = find_best_loop env s items p"
  by (rule find_best_loop_cong) (simp_all add: clear_kid_fields)

lemma find_best_loop_worked:
  assumes "\<forall>f \<in> set pre. rejected (candidate_outcome env src f)"
    and "candidate_outcome env src c = TrialWorked el"
  shows "find_best_loop env src (pre @ c # post) probe_init =
           Inr \<lparr>choice = Some el,
                errors = probe_errors env src pre,
                bus = snd (set_state_ready env el),
                calls = probe_calls env src (pre @ [c])\<rparr>"
  using find_best_loop_rejected [OF assms(1), of probe_init "c # post"]
  by (simp add: probe_init_def find_best_body_worked [OF assms(2)] probe_calls_def
      probe_errors_def)

lemma find_best_loop_all_rejected:
  assumes "\<forall>f \<in> set fs. rejected (candidate_outcome env src f)"
  shows "find_best_loop env src fs probe_init =
           Inr \<lparr>choice = None,
                errors = probe_errors env src fs,
                bus = [],
                calls = probe_calls env src fs\<rparr>"
  using find_best_loop_rejected [OF assms, of probe_init "[]"]
  by (simp add: probe_init_def probe_calls_def probe_errors_def)

lemma instantiations_append:
  "instantiations (xs @ ys) = instantiations xs @ instantiations ys"
  by (induction xs rule: instantiations.induct) simp_all

lemma trial_activations_append:
  "trial_activations (xs @ ys) = trial_activations xs @ trial_activations ys"
  by (induction xs rule: trial_activations.induct) simp_all

lemma instantiations_caps_calls: "instantiations (caps_calls fc el) = []"
  by (simp add: caps_calls_def split: option.splits)

lemma trial_activations_caps_calls: "trial_activations (caps_calls fc el) = []"
  by (simp add: caps_calls_def split: option.splits)

lemma instantiations_candidate:
  assumes "candidate_outcome env src f \<noteq> Faulted"
  shows "instantiations (candidate_calls env src f) = [fname f]"
  using assms
  by (cases "candidate_outcome env src f")
     (simp_all add: candidate_calls_def instantiations_append instantiations_caps_calls)

lemma trial_activations_candidate:
  "trial_activations (candidate_calls env src f) = tried env src f"
  by (cases "candidate_outcome env src f")
     (simp_all add: candidate_calls_def tried_def trial_activations_append
       trial_activations_caps_calls)

lemma instantiations_probe_calls:
  assumes "\<forall>f \<in> set fs. candidate_outcome env src f \<noteq> Faulted"
  shows "instantiations (probe_calls env src fs) = map fname fs"
  using assms
  by (induction fs) (simp_all add: probe_calls_def instantiations_append instantiations_candidate)

lemma trial_activations_probe_calls:
  "trial_activations (probe_calls env src fs) = concat (map (tried env src) fs)"
  by (induction fs) (simp_all add: probe_calls_def trial_activations_append trial_activations_candidate)

lemma find_best_clear_kid_worked:
  assumes "ranked_candidates env = pre @ c # post"
    and "\<forall>f \<in> set pre. rejected (candidate_outcome env src f)"
    and "candidate_outcome env src c = TrialWorked el"
  shows "gst_auto_video_src_find_best env (gst_auto_video_src_clear_kid src) =
           Inr (Some el,
                (gst_auto_video_src_clear_kid src)
                  \<lparr>trace := trace (gst_auto_video_src_clear_kid src) @
                            probe_calls env src (pre @ [c])\<rparr>)"
  by (simp add: gst_auto_video_src_find_best_def find_best_loop_clear_kid assms(1)
      find_best_loop_worked [OF assms(2,3)] find_best_finish_def)

lemma find_best_clear_kid_none_worked:
  assumes "\<forall>f \<in> set (ranked_candidates env). rejected (candidate_outcome env src f)"
  shows "gst_auto_video_src_find_best env (gst_auto_video_src_clear_kid src) =
           Inr (find_best_finish env
                 ((gst_auto_video_src_clear_kid src)
                    \<lparr>trace := trace (gst_auto_video_src_clear_kid src) @
                              probe_calls env src (ranked_candidates env)\<rparr>)
                 \<lparr>choice = None, errors = probe_errors env src (ranked_candidates env),
                  bus = [], calls = probe_calls env src (ranked_candidates env)\<rparr>)"
  by (simp add: gst_auto_video_src_find_best_def find_best_loop_clear_kid
      find_best_loop_all_rejected [OF assms])

lemma concat_first_nonempty:
  assumes "concat (map g fs) = e # es"
  shows "\<exists>pre f post rest. fs = pre @ f # post \<and> (\<forall>x \<in> set pre. g x = []) \<and> g f = e # rest"
  using assms
proof (induction fs)
  case Nil
  then show ?case by simp
next
  case (Cons a fs)
  show ?case
  proof (cases "g a")
    case Nil
    then have "concat (map g fs) = e # es" using Cons.prems by simp
    then obtain pre f post rest where
      "fs = pre @ f # post" "\<forall>x \<in> set pre. g x = []" "g f = e # rest"
      using Cons.IH by blast
    then have "a # fs = (a # pre) @ f # post \<and> (\<forall>x \<in> set (a # pre). g x = []) \<and> g f = e # rest"
      using Nil by simp
    then show ?thesis by blast
  next
    case (Cons b bs)
    then have "g a = e # bs" using Cons.prems by simp
    then have "a # fs = [] @ a # fs \<and> (\<forall>x \<in> set []. g x = []) \<and> g a = e # bs" by simp
    then show ?thesis by blast
  qed
qed


lemma created_element:
  assumes "gst_auto_video_src_create_element_with_pretty_name env src f = Inr (name, Some el)"
  shows "el = \<lparr>el_name = name, el_factory = fname f, el_sync = False\<rparr>"
  using assms
  by (auto simp: gst_auto_video_src_create_element_with_pretty_name_def
      gst_element_factory_create_def split: sum.splits if_splits)

lemma outcome_cases:
  obtains (fault) e where
      "gst_auto_video_src_create_element_with_pretty_name env src f = Inl e"
      "candidate_outcome env src f = Faulted"
  | (none) name where
      "gst_auto_video_src_create_element_with_pretty_name env src f = Inr (name, None)"
      "candidate_outcome env src f = NotCreated name"
  | (incompatible) name el where
      "gst_auto_video_src_create_element_with_pretty_name env src f = Inr (name, Some el)"
      "el = \<lparr>el_name = name, el_factory = fname f, el_sync = False\<rparr>"
      "\<not> compatible env (filter_caps src) el"
      "candidate_outcome env src f = Incompatible el"
  | (failed) name el where
      "gst_auto_video_src_create_element_with_pretty_name env src f = Inr (name, Some el)"
      "el = \<lparr>el_name = name, el_factory = fname f, el_sync = False\<rparr>"
      "compatible env (filter_caps src) el"
      "fst (set_state_ready env el) \<noteq> GST_STATE_CHANGE_SUCCESS"
      "candidate_outcome env src f = TrialFailed el"
  | (worked) name el where
      "gst_auto_video_src_create_element_with_pretty_name env src f = Inr (name, Some el)"
      "el = \<lparr>el_name = name, el_factory = fname f, el_sync = False\<rparr>"
      "compatible env (filter_caps src) el"
      "fst (set_state_ready env el) = GST_STATE_CHANGE_SUCCESS"
      "candidate_outcome env src f = TrialWorked el"
proof (cases "gst_auto_video_src_create_element_with_pretty_name env src f")
  case (Inl e)
  then show ?thesis using fault by (simp add: candidate_outcome_def)
next
  case (Inr nr)
  obtain name r where nr: "nr = (name, r)" by (cases nr)
  show ?thesis
  proof (cases r)
    case None
    then show ?thesis using Inr nr none by (simp add: candidate_outcome_def)
  next
    case (Some el)
    have cr: "gst_auto_video_src_create_element_with_pretty_name env src f = Inr (name, Some el)"
      using Inr nr Some by simp
    note el = created_element [OF cr]
    show ?thesis
    proof (cases "compatible env (filter_caps src) el")
      case False
      then show ?thesis using incompatible [OF cr el] cr by (simp add: candidate_outcome_def)
    next
      case True
      show ?thesis
      proof (cases "fst (set_state_ready env el) = GST_STATE_CHANGE_SUCCESS")
        case True
        then show ?thesis
          using worked [OF cr el] cr \<open>compatible env (filter_caps src) el\<close>
          by (simp add: candidate_outcome_def)
      next
        case False
        then show ?thesis
          using failed [OF cr el] cr \<open>compatible env (filter_caps src) el\<close>
          by (simp add: candidate_outcome_def)
      qed
    qed
  qed
qed

lemma tried_compatible:
  assumes "el \<in> set (tried env src f)"
  shows "compatible env (filter_caps src) el"
  using assms
  by (cases env src f rule: outcome_cases) (simp_all add: tried_def)

lemma find_best_body_calls:
  assumes "find_best_body env src f p = Inr (b, p1)"
  shows "calls p1 = calls p @ candidate_calls env src f"
proof (cases env src f rule: outcome_cases)
  case (fault e)
  then show ?thesis using assms by (simp add: find_best_body_def)
next
  case (none name)
  then have "p1 = p\<lparr>calls := calls p @ [FactoryCreate (fname f) name False]\<rparr>"
    using assms by (simp add: find_best_body_def)
  then show ?thesis using none by (simp add: candidate_calls_def)
next
  case (incompatible name el)
  then obtain fc where fc: "filter_caps src = Some fc"
    "\<not> gst_caps_can_intersect env fc (pad_caps env el)"
    by (auto simp: compatible_def split: option.splits)
  have "p1 = p\<lparr>calls := calls p @ [FactoryCreate (fname f) name True, CanIntersect fc el, Unref el]\<rparr>"
    using assms incompatible(1) fc by (simp add: find_best_body_def)
  then show ?thesis using incompatible fc by (simp add: candidate_calls_def caps_calls_def)
next
  case (failed name el)
  have "calls (snd (find_best_trial env el q)) =
          calls q @ [SetState el GST_STATE_READY, SetState el GST_STATE_NULL, Unref el]" for q
    using failed(4) by (simp add: find_best_trial_def Let_def)
  moreover have "p1 = snd (find_best_trial env el
      (p\<lparr>calls := calls p @ FactoryCreate (fname f) name True # caps_calls (filter_caps src) el\<rparr>))"
    using assms failed(1,3)
    by (cases "filter_caps src") (auto simp: find_best_body_def compatible_def caps_calls_def)
  ultimately show ?thesis using failed by (simp add: candidate_calls_def)
next
  case (worked name el)
  have "calls (snd (find_best_trial env el q)) = calls q @ [SetState el GST_STATE_READY]" for q
    using worked(4) by (simp add: find_best_trial_def Let_def)
  moreover have "p1 = snd (find_best_trial env el
      (p\<lparr>calls := calls p @ FactoryCreate (fname f) name True # caps_calls (filter_caps src) el\<rparr>))"
    using assms worked(1,3)
    by (cases "filter_caps src") (auto simp: find_best_body_def compatible_def caps_calls_def)
  ultimately show ?thesis using worked by (simp add: candidate_calls_def)
qed

lemma find_best_loop_calls:
  assumes "find_best_loop env src items p = Inr p'"
  shows "\<exists>k. calls p' = calls p @ probe_calls env src (take k items)"
  using assms
proof (induction items arbitrary: p)
  case Nil
  then have "calls p' = calls p @ probe_calls env src (take 0 [])" by (simp add: probe_calls_def)
  then show ?case by blast
next
  case (Cons f items)
  show ?case
  proof (cases "find_best_body env src f p")
    case (Inl e)
    then show ?thesis using Cons.prems by simp
  next
    case (Inr bp)
    obtain b p1 where bp: "bp = (b, p1)" by (cases bp)
    have c1: "calls p1 = calls p @ candidate_calls env src f"
      using Inr bp by (simp add: find_best_body_calls)
    show ?thesis
    proof (cases b)
      case True
      then have "p' = p1" using Cons.prems Inr bp by simp
      then have "calls p' = calls p @ probe_calls env src (take 1 (f # items))"
        using c1 by (simp add: probe_calls_def)
      then show ?thesis by blast
    next
      case False
      then have "find_best_loop env src items p1 = Inr p'" using Cons.prems Inr bp by simp
      then obtain k where "calls p' = calls p1 @ probe_calls env src (take k items)"
        using Cons.IH by blast
      then have "calls p' = calls p @ probe_calls env src (take (Suc k) (f # items))"
        using c1 by (simp add: probe_calls_def)
      then show ?thesis by blast
    qed
  qed
qed

lemma trial_activations_take:
  assumes "el \<in> set (trial_activations (probe_calls env src (take k items)))"
  shows "compatible env (filter_caps src) el"
proof -
  from assms obtain f where "el \<in> set (tried env src f)"
    by (auto simp: trial_activations_probe_calls)
  then show ?thesis by (rule tried_compatible)
qed

lemma set_trial_activations:
  "set (trial_activations cs) = {el. SetState el GST_STATE_READY \<in> set cs}"
  by (induction cs rule: trial_activations.induct) auto

lemma candidate_calls_filtered:
  assumes "filter_caps src = Some fc"
  shows "(FactoryCreate n m True \<in> set (candidate_calls env src f) \<longrightarrow>
            CanIntersect fc \<lparr>el_name = m, el_factory = n, el_sync = False\<rparr>
              \<in> set (candidate_calls env src f))
         \<and> (SetState el GST_STATE_READY \<in> set (candidate_calls env src f) \<longrightarrow>
            CanIntersect fc el \<in> set (candidate_calls env src f)
            \<and> gst_caps_can_intersect env fc (pad_caps env el))"
proof (cases env src f rule: outcome_cases)
  case (fault e)
  then show ?thesis by (simp add: candidate_calls_def)
next
  case (none name)
  then show ?thesis by (simp add: candidate_calls_def)
next
  case (incompatible name el')
  then show ?thesis using assms by (auto simp: candidate_calls_def caps_calls_def)
next
  case (failed name el')
  then show ?thesis using assms by (auto simp: candidate_calls_def caps_calls_def compatible_def)
next
  case (worked name el')
  then show ?thesis using assms by (auto simp: candidate_calls_def caps_calls_def compatible_def)
qed

lemma probe_calls_filtered:
  assumes "filter_caps src = Some fc"
  shows "(FactoryCreate n m True \<in> set (probe_calls env src fs) \<longrightarrow>
            CanIntersect fc \<lparr>el_name = m, el_factory = n, el_sync = False\<rparr>
              \<in> set (probe_calls env src fs))
         \<and> (SetState el GST_STATE_READY \<in> set (probe_calls env src fs) \<longrightarrow>
            CanIntersect fc el \<in> set (probe_calls env src fs)
            \<and> gst_caps_can_intersect env fc (pad_caps env el))"
  using candidate_calls_filtered [OF assms, of n m env _ el]
  by (auto simp: probe_calls_def)





section \<open>The comparator on ranks below \<open>2^31\<close>\<close>

lemma sint_small:
  fixes a :: "32 word"
  assumes "uint a < 2147483648"
  shows "sint a = uint a"
proof -
  have p: "(2::int) ^ 31 = 2147483648" by simp
  have "- (2 ^ 31) \<le> uint a" "uint a < 2 ^ 31"
    unfolding p using uint_ge_0 [of a] assms by linarith+
  moreover have "sint a = signed_take_bit 31 (uint a)" by (simp add: sint_uint)
  ultimately show ?thesis by (simp only: signed_take_bit_int_eq_self)
qed

lemma sint_diff_small:
  fixes a b :: "32 word"
  assumes "uint a < 2147483648" "uint b < 2147483648"
  shows "sint (b - a) = uint b - uint a"
proof -
  have p: "(2::int) ^ 31 = 2147483648" by simp
  have "- (2 ^ 31) \<le> uint b - uint a" "uint b - uint a < 2 ^ 31"
    unfolding p using assms uint_ge_0 [of a] uint_ge_0 [of b] by linarith+
  moreover have "sint (b - a) = signed_take_bit 31 (sint b - sint a)"
    using sint_word_diff [of b a] by simp
  then have "sint (b - a) = signed_take_bit 31 (uint b - uint a)"
    by (simp only: sint_small [OF assms(1)] sint_small [OF assms(2)])
  ultimately show ?thesis by (simp only: signed_take_bit_int_eq_self)
qed

text \<open>Where both ranks are below \<open>2^31\<close> the difference does not wrap: the comparator is
  the difference of the ranks, and the \<open>strcmp\<close> of the names at equal ranks.\<close>

lemma compare_ranks_in_range:
  assumes "uint (frank f1) < 2147483648" "uint (frank f2) < 2147483648"
  shows "gst_auto_video_src_compare_ranks f1 f2 =
           (if frank f1 = frank f2 then strcmp (fname f2) (fname f1)
            else uint (frank f2) - uint (frank f1))"
proof (cases "frank f1 = frank f2")
  case True
  then show ?thesis by (simp add: gst_auto_video_src_compare_ranks_def)
next
  case False
  then have "uint (frank f2) - uint (frank f1) \<noteq> 0" by (simp add: word_uint_eq_iff)
  then show ?thesis
    using False sint_diff_small [OF assms]
    by (simp add: gst_auto_video_src_compare_ranks_def Let_def)
qed

lemma find_best_loop_reaches:
  assumes "find_best_loop env src (pre @ f # post) probe_init = Inr p"
    and "\<forall>g \<in> set pre. rejected (candidate_outcome env src g)"
  shows "\<exists>more. calls p = probe_calls env src pre @ candidate_calls env src f @ more"
proof -
  define p1 where "p1 = probe_init\<lparr>errors := errors probe_init @ concat (map (candidate_errors env src) pre),
      bus := [], calls := calls probe_init @ concat (map (candidate_calls env src) pre)\<rparr>"
  have b0: "bus probe_init = []" by (simp add: probe_init_def)
  have c1: "calls p1 = probe_calls env src pre"
    by (simp add: p1_def probe_init_def probe_calls_def)
  have run: "find_best_loop env src (f # post) p1 = Inr p"
    using find_best_loop_rejected [OF assms(2) b0, of "f # post"] assms(1)
    by (simp add: p1_def)
  show ?thesis
  proof (cases "find_best_body env src f p1")
    case (Inl e)
    then show ?thesis using run by simp
  next
    case (Inr bp)
    obtain b p2 where bp: "bp = (b, p2)" by (cases bp)
    have c2: "calls p2 = calls p1 @ candidate_calls env src f"
      using Inr bp by (simp add: find_best_body_calls)
    show ?thesis
    proof (cases b)
      case True
      then have "p = p2" using run Inr bp by simp
      then have "calls p = probe_calls env src pre @ candidate_calls env src f @ []"
        using c1 c2 by simp
      then show ?thesis by blast
    next
      case False
      then have "find_best_loop env src post p2 = Inr p" using run Inr bp by simp
      then obtain k where "calls p = calls p2 @ probe_calls env src (take k post)"
        using find_best_loop_calls by blast
      then have "calls p = probe_calls env src pre @ candidate_calls env src f @
                   probe_calls env src (take k post)"
        using c1 c2 by simp
      then show ?thesis by blast
    qed
  qed
qed

lemma candidate_calls_created:
  assumes "gst_auto_video_src_create_element_with_pretty_name env src f = Inr (n, Some el)"
    and "filter_caps src = Some fc"
  shows "CanIntersect fc el \<in> set (candidate_calls env src f)"
    and "gst_caps_can_intersect env fc (pad_caps env el) \<Longrightarrow>
           SetState el GST_STATE_READY \<in> set (candidate_calls env src f)"
proof -
  show "CanIntersect fc el \<in> set (candidate_calls env src f)"
    using assms
    by (cases env src f rule: outcome_cases) (auto simp: candidate_calls_def caps_calls_def)
  show "SetState el GST_STATE_READY \<in> set (candidate_calls env src f)"
    if "gst_caps_can_intersect env fc (pad_caps env el)"
    using assms that
    by (cases env src f rule: outcome_cases)
       (auto simp: candidate_calls_def caps_calls_def compatible_def)
qed

lemma find_best_trace:
  assumes "gst_auto_video_src_find_best env s = Inr (c, s1)"
  shows "\<exists>p tail. find_best_loop env s (ranked_candidates env) probe_init = Inr p
           \<and> trace s1 = trace s @ calls p @ tail
           \<and> (tail = [] \<or> tail = [SetState (fake_video_src env) GST_STATE_READY])"
proof (cases "find_best_loop env s (ranked_candidates env) probe_init")
  case (Inl e)
  then show ?thesis using assms by (simp add: gst_auto_video_src_find_best_def)
next
  case (Inr p)
  then have fin: "find_best_finish env (s\<lparr>trace := trace s @ calls p\<rparr>) p = (c, s1)"
    using assms by (simp add: gst_auto_video_src_find_best_def)
  have "trace s1 = trace s @ calls p @ []
        \<or> trace s1 = trace s @ calls p @ [SetState (fake_video_src env) GST_STATE_READY]"
    using fin
    by (auto simp: find_best_finish_def GST_ELEMENT_WARNING_def gst_element_post_message_def
        fake_video_src_def Let_def split: option.splits list.splits)
  then show ?thesis using Inr by blast
qed

lemma detect_trace:
  assumes "gst_auto_video_src_detect env s = Inr (ok, s')"
  shows "\<exists>p tail. find_best_loop env s (ranked_candidates env) probe_init = Inr p
           \<and> trace s' = trace (gst_auto_video_src_clear_kid s) @ calls p @ tail
           \<and> (tail = [] \<or> tail = [SetState (fake_video_src env) GST_STATE_READY])"
proof (cases "gst_auto_video_src_find_best env (gst_auto_video_src_clear_kid s)")
  case (Inl e)
  then show ?thesis using assms by (simp add: gst_auto_video_src_detect_def)
next
  case (Inr cs)
  obtain c s1 where cs: "cs = (c, s1)" by (cases cs)
  have fb: "gst_auto_video_src_find_best env (gst_auto_video_src_clear_kid s) = Inr (c, s1)"
    using Inr cs by simp
  have "trace s' = trace s1"
    using assms fb
    by (cases c)
       (auto simp: gst_auto_video_src_detect_def gst_ghost_pad_set_target_def
         GST_ELEMENT_ERROR_def gst_element_post_message_def split: if_splits)
  then show ?thesis
    using find_best_trace [OF fb] by (simp add: find_best_loop_clear_kid)
qed

lemma change_state_detect:
  assumes "gst_auto_video_src_change_state env s GST_STATE_CHANGE_NULL_TO_READY = Inr (r, s')"
  shows "\<exists>ok. gst_auto_video_src_detect env s = Inr (ok, s')"
  using assms
  by (auto simp: gst_auto_video_src_change_state_def split: sum.splits prod.splits bool.splits)


lemma init_clear_kid_trace:
  "trace (gst_auto_video_src_clear_kid (gst_auto_video_src_init env name)) =
     [SetState tempsrc GST_STATE_NULL]"
  by (simp add: gst_auto_video_src_init_def gst_auto_video_src_reset_def Let_def
      gst_ghost_pad_set_target_def gst_auto_video_src_clear_kid_def tempsrc_def)

lemma set_property_caps_unconditional:
  "filter_caps (gst_auto_video_src_set_property s PROP_CAPS v) = v"
  by (simp add: gst_auto_video_src_set_property_def)

section \<open>Properties\<close>




text \<open>
  C2.  The claim says a write to \<open>filter-caps\<close> is rejected while a detected candidate
  is bound.  \<open>gst_auto_video_src_set_property\<close> does not look at the bound element: the
  write is stored whatever the state of the facade, here after \<open>drvB\<close> has been detected
  and bound.
\<close>

theorem filter_caps_written_while_active:
  "gst_auto_video_src_change_state env_fallback (gst_auto_video_src_init env_fallback ''auto'')
       GST_STATE_CHANGE_NULL_TO_READY = Inr (GST_STATE_CHANGE_SUCCESS, active_drvB)
   \<and> kid active_drvB = Some (candidate_element ''drvB'')
   \<and> \<not> is_placeholder (candidate_element ''drvB'')
   \<and> filter_caps active_drvB = Some raw_caps
   \<and> gst_auto_video_src_set_property active_drvB PROP_CAPS (Some ''image/jpeg'') =
       active_drvB\<lparr>filter_caps := Some ''image/jpeg''\<rparr>
   \<and> gst_auto_video_src_get_property
         (gst_auto_video_src_set_property active_drvB PROP_CAPS (Some ''image/jpeg''))
         PROP_CAPS None = Some ''image/jpeg''"
  by code_simp

text \<open>
  C3 (as amended).  When every ranked candidate is rejected and the errors recorded in
  ranked order are \<open>e # es\<close>, the NULL_TO_READY transition fails and no element is bound.
  The facade posts two errors: first \<open>e\<close>, the head of the list, as it was recorded (it is
  the first error of the first ranked candidate that recorded any, and it still names that
  candidate's element as its source), and then its own "Failed to find a supported video
  source" error.  None of the other recorded errors is posted.
\<close>

theorem first_error_surfaced:
  assumes "\<forall>f \<in> set (ranked_candidates env). rejected (candidate_outcome env src f)"
    and "probe_errors env src (ranked_candidates env) = e # es"
  shows "(\<exists>s'. gst_auto_video_src_change_state env src GST_STATE_CHANGE_NULL_TO_READY =
                 Inr (GST_STATE_CHANGE_FAILURE, s')
              \<and> posted s' = posted src @ [e, error_no_src src]
              \<and> kid s' = None)
         \<and> (\<exists>pre f post rest. ranked_candidates env = pre @ f # post
              \<and> (\<forall>g \<in> set pre. candidate_errors env src g = [])
              \<and> candidate_errors env src f = e # rest)"
proof
  show "\<exists>s'. gst_auto_video_src_change_state env src GST_STATE_CHANGE_NULL_TO_READY =
                 Inr (GST_STATE_CHANGE_FAILURE, s')
              \<and> posted s' = posted src @ [e, error_no_src src]
              \<and> kid s' = None"
    by (simp add: gst_auto_video_src_change_state_def gst_auto_video_src_detect_def
        find_best_clear_kid_none_worked [OF assms(1)] find_best_finish_def assms(2)
        GST_ELEMENT_ERROR_def gst_element_post_message_def error_no_src_def clear_kid_fields)
  show "\<exists>pre f post rest. ranked_candidates env = pre @ f # post
              \<and> (\<forall>g \<in> set pre. candidate_errors env src g = [])
              \<and> candidate_errors env src f = e # rest"
    using assms(2) unfolding probe_errors_def by (rule concat_first_nonempty)
qed

theorem first_error_surfaced_witness:
  "ranked_candidates env_all_fail = [video_source ''drvA'' 128, video_source ''drvB'' 64]
   \<and> probe_errors env_all_fail (gst_auto_video_src_init env_all_fail ''auto'')
        (ranked_candidates env_all_fail) =
        [device_error ''auto-actual-src-drvA'' ''device busy'',
         device_error ''auto-actual-src-drvA'' ''giving up'',
         device_error ''auto-actual-src-drvB'' ''no such device'']
   \<and> (\<exists>s'. gst_auto_video_src_change_state env_all_fail
               (gst_auto_video_src_init env_all_fail ''auto'') GST_STATE_CHANGE_NULL_TO_READY =
               Inr (GST_STATE_CHANGE_FAILURE, s')
          \<and> posted s' =
               [device_error ''auto-actual-src-drvA'' ''device busy'',
                error_no_src (gst_auto_video_src_init env_all_fail ''auto'')]
          \<and> kid s' = None)"
proof -
  let ?s = "gst_auto_video_src_init env_all_fail ''auto''"
  have r: "ranked_candidates env_all_fail = [video_source ''drvA'' 128, video_source ''drvB'' 64]"
    by code_simp
  have all: "\<forall>f \<in> set (ranked_candidates env_all_fail). rejected (candidate_outcome env_all_fail ?s f)"
    by code_simp
  have e: "probe_errors env_all_fail ?s (ranked_candidates env_all_fail) =
        device_error ''auto-actual-src-drvA'' ''device busy'' #
        [device_error ''auto-actual-src-drvA'' ''giving up'',
         device_error ''auto-actual-src-drvB'' ''no such device'']"
    by code_simp
  have p: "posted ?s = []" by code_simp
  from first_error_surfaced [OF all e] p
  have "\<exists>s'. gst_auto_video_src_change_state env_all_fail ?s GST_STATE_CHANGE_NULL_TO_READY =
               Inr (GST_STATE_CHANGE_FAILURE, s')
          \<and> posted s' = [device_error ''auto-actual-src-drvA'' ''device busy'', error_no_src ?s]
          \<and> kid s' = None"
    by auto
  with r e show ?thesis by simp
qed

text \<open>
  C3 as stated fails: where \<open>drvA\<close> and \<open>drvB\<close> both fail with errors, the facade does not
  post exactly the first recorded error as its own.  It posts two errors, and the first of
  them has the element of \<open>drvA\<close>, not the facade, as its source.
\<close>

theorem second_error_posted:
  "gst_auto_video_src_change_state env_all_fail (gst_auto_video_src_init env_all_fail ''auto'')
       GST_STATE_CHANGE_NULL_TO_READY = Inr (GST_STATE_CHANGE_FAILURE, after_all_fail)
   \<and> probe_errors env_all_fail (gst_auto_video_src_init env_all_fail ''auto'')
        (ranked_candidates env_all_fail) =
        [device_error ''auto-actual-src-drvA'' ''device busy'',
         device_error ''auto-actual-src-drvA'' ''giving up'',
         device_error ''auto-actual-src-drvB'' ''no such device'']
   \<and> posted after_all_fail \<noteq> [device_error ''auto-actual-src-drvA'' ''device busy'']
   \<and> map msg_src (posted after_all_fail) = [''auto-actual-src-drvA'', ''auto'']
   \<and> length (filter is_error (posted after_all_fail)) = 2"
  by code_simp

text \<open>
  C4.  The comparator at two ranks that are \<open>2^31\<close> apart: the difference wraps to a
  negative \<open>gint\<close> in both directions, so each feature is ordered before the other, and
  \<open>g_list_sort\<close> leaves either input order as it is; in the first, the lower-ranked
  feature comes first.
\<close>

theorem compare_ranks_wraps:
  "gst_auto_video_src_compare_ranks (video_source ''losrc'' 64) (video_source ''hisrc'' 2147483712) < 0
   \<and> gst_auto_video_src_compare_ranks (video_source ''hisrc'' 2147483712) (video_source ''losrc'' 64) < 0
   \<and> g_list_sort gst_auto_video_src_compare_ranks
        [video_source ''losrc'' 64, video_source ''hisrc'' 2147483712] =
        [video_source ''losrc'' 64, video_source ''hisrc'' 2147483712]
   \<and> g_list_sort gst_auto_video_src_compare_ranks
        [video_source ''hisrc'' 2147483712, video_source ''losrc'' 64] =
        [video_source ''hisrc'' 2147483712, video_source ''losrc'' 64]"
  by (simp add: gst_auto_video_src_compare_ranks_def video_source_def g_list_sort.simps)



text \<open>
  C6.  A created candidate whose caps do not intersect the configured filter is
  dropped by the loop, which goes on with the next candidate: the only calls made for it
  are the creation, the intersection test and the unref, none of them a state change; no
  error is recorded for it; and no run of the loop ever drives that element to READY.
\<close>

theorem incompatible_candidate_discarded:
  assumes "gst_auto_video_src_create_element_with_pretty_name env src f = Inr (name, Some el)"
    and "filter_caps src = Some fc"
    and "\<not> gst_caps_can_intersect env fc (pad_caps env el)"
  shows "find_best_loop env src (f # items) p =
           find_best_loop env src items
             (p\<lparr>calls := calls p @
                  [FactoryCreate (fname f) name True, CanIntersect fc el, Unref el]\<rparr>)
         \<and> trial_activations [FactoryCreate (fname f) name True, CanIntersect fc el, Unref el] = []
         \<and> candidate_errors env src f = []
         \<and> (\<forall>fs p0 p'. find_best_loop env src fs p0 = Inr p' \<longrightarrow>
              (\<exists>new. calls p' = calls p0 @ new \<and> el \<notin> set (trial_activations new)))"
proof -
  have nc: "\<not> compatible env (filter_caps src) el"
    using assms(2,3) by (simp add: compatible_def)
  have "find_best_body env src f p =
          Inr (False, p\<lparr>calls := calls p @
                 [FactoryCreate (fname f) name True, CanIntersect fc el, Unref el]\<rparr>)"
    using assms by (simp add: find_best_body_def)
  then have step: "find_best_loop env src (f # items) p =
           find_best_loop env src items
             (p\<lparr>calls := calls p @
                  [FactoryCreate (fname f) name True, CanIntersect fc el, Unref el]\<rparr>)"
    by simp
  have errs: "candidate_errors env src f = []"
    using assms(1) nc by (simp add: candidate_errors_def candidate_outcome_def)
  have glob: "\<exists>new. calls p' = calls p0 @ new \<and> el \<notin> set (trial_activations new)"
    if run: "find_best_loop env src fs p0 = Inr p'" for fs p0 p'
  proof -
    obtain k where k: "calls p' = calls p0 @ probe_calls env src (take k fs)"
      using find_best_loop_calls [OF run] by blast
    have "el \<notin> set (trial_activations (probe_calls env src (take k fs)))"
      using nc trial_activations_take by blast
    with k show ?thesis by blast
  qed
  show ?thesis using step errs glob by simp
qed

theorem incompatible_candidate_discarded_witness:
  "gst_auto_video_src_create_element_with_pretty_name env_jpeg
       (gst_auto_video_src_init env_jpeg ''auto'') (video_source ''drvA'' 128) =
     Inr (''auto-actual-src-drvA'', Some (candidate_element ''drvA''))
   \<and> filter_caps (gst_auto_video_src_init env_jpeg ''auto'') = Some raw_caps
   \<and> \<not> gst_caps_can_intersect env_jpeg raw_caps (pad_caps env_jpeg (candidate_element ''drvA''))
   \<and> find_best_loop env_jpeg (gst_auto_video_src_init env_jpeg ''auto'')
        (video_source ''drvA'' 128 # [video_source ''drvB'' 64]) probe_init =
      find_best_loop env_jpeg (gst_auto_video_src_init env_jpeg ''auto'') [video_source ''drvB'' 64]
        (probe_init\<lparr>calls := calls probe_init @
           [FactoryCreate ''drvA'' ''auto-actual-src-drvA'' True,
            CanIntersect raw_caps (candidate_element ''drvA''),
            Unref (candidate_element ''drvA'')]\<rparr>)"
proof -
  let ?s = "gst_auto_video_src_init env_jpeg ''auto''"
  have c: "gst_auto_video_src_create_element_with_pretty_name env_jpeg ?s (video_source ''drvA'' 128) =
     Inr (''auto-actual-src-drvA'', Some (candidate_element ''drvA''))"
    by code_simp
  have f: "filter_caps ?s = Some raw_caps" by code_simp
  have n: "\<not> gst_caps_can_intersect env_jpeg raw_caps (pad_caps env_jpeg (candidate_element ''drvA''))"
    by code_simp
  have nm: "fname (video_source ''drvA'' 128) = ''drvA''" by (simp add: video_source_def)
  from incompatible_candidate_discarded [OF c f n, of "[video_source ''drvB'' 64]" probe_init]
  have "find_best_loop env_jpeg ?s (video_source ''drvA'' 128 # [video_source ''drvB'' 64]) probe_init =
      find_best_loop env_jpeg ?s [video_source ''drvB'' 64]
        (probe_init\<lparr>calls := calls probe_init @
           [FactoryCreate ''drvA'' ''auto-actual-src-drvA'' True,
            CanIntersect raw_caps (candidate_element ''drvA''),
            Unref (candidate_element ''drvA'')]\<rparr>)"
    unfolding nm by blast
  with c f n show ?thesis by blast
qed

text \<open>
  C7.  When the ranked list is \<open>pre @ c # post\<close>, every candidate of \<open>pre\<close> is rejected
  and the trial of \<open>c\<close> works, detection binds the element of \<open>c\<close>; the factories asked for
  an element are those of \<open>pre @ [c]\<close> in that order (none of \<open>post\<close>), the trials are those
  of \<open>pre\<close> in order and then that of \<open>c\<close>, and the facade posts none of the recorded errors
  (it posts nothing at all, unless the ghost pad refuses the new target).
\<close>

theorem first_working_candidate_bound:
  assumes "ranked_candidates env = pre @ c # post"
    and "\<forall>f \<in> set pre. rejected (candidate_outcome env src f)"
    and "candidate_outcome env src c = TrialWorked el"
  shows "\<exists>s'. gst_auto_video_src_detect env src = Inr (ghost_pad_accepts env el, s')
          \<and> kid s' = Some el
          \<and> trace s' = trace (gst_auto_video_src_clear_kid src) @ probe_calls env src (pre @ [c])
          \<and> instantiations (probe_calls env src (pre @ [c])) = map fname (pre @ [c])
          \<and> trial_activations (probe_calls env src (pre @ [c])) =
              concat (map (tried env src) pre) @ [el]
          \<and> posted s' =
              posted src @ (if ghost_pad_accepts env el then [] else [error_target_failed src])"
proof -
  have nf: "\<forall>f \<in> set (pre @ [c]). candidate_outcome env src f \<noteq> Faulted"
    using assms(2,3) by auto
  have i: "instantiations (probe_calls env src (pre @ [c])) = map fname (pre @ [c])"
    by (rule instantiations_probe_calls [OF nf])
  have t: "trial_activations (probe_calls env src (pre @ [c])) =
             concat (map (tried env src) pre) @ [el]"
    using assms(3) by (simp add: trial_activations_probe_calls tried_def)
  show ?thesis
    unfolding i t
    by (simp add: gst_auto_video_src_detect_def find_best_clear_kid_worked [OF assms]
        gst_ghost_pad_set_target_def GST_ELEMENT_ERROR_def gst_element_post_message_def
        error_target_failed_def clear_kid_fields)
qed

theorem first_working_candidate_bound_witness:
  "ranked_candidates env_fallback =
     [video_source ''drvA'' 128] @ video_source ''drvB'' 64 # [video_source ''drv0'' 64]
   \<and> candidate_outcome env_fallback (gst_auto_video_src_init env_fallback ''auto'')
        (video_source ''drvA'' 128) = TrialFailed (candidate_element ''drvA'')
   \<and> candidate_outcome env_fallback (gst_auto_video_src_init env_fallback ''auto'')
        (video_source ''drvB'' 64) = TrialWorked (candidate_element ''drvB'')
   \<and> (\<exists>s'. gst_auto_video_src_detect env_fallback (gst_auto_video_src_init env_fallback ''auto'')
              = Inr (True, s')
          \<and> kid s' = Some (candidate_element ''drvB'')
          \<and> posted s' = [])"
proof -
  let ?s = "gst_auto_video_src_init env_fallback ''auto''"
  have r: "ranked_candidates env_fallback =
     [video_source ''drvA'' 128] @ video_source ''drvB'' 64 # [video_source ''drv0'' 64]"
    by code_simp
  have a: "candidate_outcome env_fallback ?s (video_source ''drvA'' 128)
             = TrialFailed (candidate_element ''drvA'')"
    by code_simp
  have b: "candidate_outcome env_fallback ?s (video_source ''drvB'' 64)
             = TrialWorked (candidate_element ''drvB'')"
    by code_simp
  have pre: "\<forall>f \<in> set [video_source ''drvA'' 128]. rejected (candidate_outcome env_fallback ?s f)"
    using a by simp
  have g: "ghost_pad_accepts env_fallback (candidate_element ''drvB'')"
    by (simp add: env_fallback_def scenario_def)
  have p: "posted ?s = []" by code_simp
  from first_working_candidate_bound [OF r pre b] g p
  have "\<exists>s'. gst_auto_video_src_detect env_fallback ?s = Inr (True, s')
          \<and> kid s' = Some (candidate_element ''drvB'')
          \<and> posted s' = []"
    by auto
  with r a b show ?thesis by blast
qed

text \<open>
  C8.  The registry-query predicate accepts a feature if and only if it is an element
  factory, its class string contains both \<open>Source\<close> and \<open>Video\<close>, and its rank is at least
  \<open>GST_RANK_MARGINAL\<close>.  The query itself is a pure function of the registry: it returns
  the accepted features in the registry's own order.
\<close>

theorem factory_filter_accepts_iff:
  "(gst_auto_video_src_factory_filter f \<longleftrightarrow>
      ftype f = ElementFactory
      \<and> (\<exists>p q. fklass f = p @ ''Source'' @ q)
      \<and> (\<exists>p q. fklass f = p @ ''Video'' @ q)
      \<and> unat GST_RANK_MARGINAL \<le> unat (frank f))
   \<and> gst_registry_feature_filter reg gst_auto_video_src_factory_filter False =
       filter gst_auto_video_src_factory_filter reg"
  by (simp add: gst_auto_video_src_factory_filter_def GST_IS_ELEMENT_FACTORY_def strstr_iff
      gst_registry_feature_filter_def word_less_nat_alt not_less)




text \<open>
  C10.  A newly constructed facade has the filter caps
  \<open>video/x-raw-yuv; video/x-raw-rgb\<close>.  In its activation (the NULL_TO_READY transition,
  with no write to the filter in between) every candidate that the loop reaches (all
  candidates ranked before it were rejected) and that yields an element is tested against
  these caps, and is driven to READY if they intersect; every element created during the
  activation is tested; and every element driven to READY is either the fallback fakesrc
  or has been tested and intersects the raw caps.
\<close>

theorem default_filter_applies:
  "filter_caps (gst_auto_video_src_init env name) = Some raw_caps
   \<and> raw_caps = ''video/x-raw-yuv; video/x-raw-rgb''
   \<and> (\<forall>r s'. gst_auto_video_src_change_state env (gst_auto_video_src_init env name)
                 GST_STATE_CHANGE_NULL_TO_READY = Inr (r, s') \<longrightarrow>
         (\<forall>pre f post n el.
             ranked_candidates env = pre @ f # post
             \<and> (\<forall>g \<in> set pre. rejected (candidate_outcome env (gst_auto_video_src_init env name) g))
             \<and> gst_auto_video_src_create_element_with_pretty_name env
                 (gst_auto_video_src_init env name) f = Inr (n, Some el)
             \<longrightarrow> CanIntersect raw_caps el \<in> set (trace s')
                 \<and> (gst_caps_can_intersect env raw_caps (pad_caps env el)
                      \<longrightarrow> SetState el GST_STATE_READY \<in> set (trace s')))
         \<and> (\<forall>n m. FactoryCreate n m True \<in> set (trace s') \<longrightarrow>
               CanIntersect raw_caps \<lparr>el_name = m, el_factory = n, el_sync = False\<rparr>
                 \<in> set (trace s'))
         \<and> (\<forall>el. SetState el GST_STATE_READY \<in> set (trace s') \<longrightarrow>
               el = fake_video_src env
               \<or> (CanIntersect raw_caps el \<in> set (trace s')
                   \<and> gst_caps_can_intersect env raw_caps (pad_caps env el))))"
proof -
  let ?s = "gst_auto_video_src_init env name"
  have f: "filter_caps ?s = Some raw_caps"
    by (simp add: gst_auto_video_src_init_def Let_def)
  have act: "(\<forall>pre f post n el.
             ranked_candidates env = pre @ f # post
             \<and> (\<forall>g \<in> set pre. rejected (candidate_outcome env ?s g))
             \<and> gst_auto_video_src_create_element_with_pretty_name env ?s f = Inr (n, Some el)
             \<longrightarrow> CanIntersect raw_caps el \<in> set (trace s')
                 \<and> (gst_caps_can_intersect env raw_caps (pad_caps env el)
                      \<longrightarrow> SetState el GST_STATE_READY \<in> set (trace s')))
         \<and> (\<forall>n m. FactoryCreate n m True \<in> set (trace s') \<longrightarrow>
               CanIntersect raw_caps \<lparr>el_name = m, el_factory = n, el_sync = False\<rparr>
                 \<in> set (trace s'))
         \<and> (\<forall>el. SetState el GST_STATE_READY \<in> set (trace s') \<longrightarrow>
               el = fake_video_src env
               \<or> (CanIntersect raw_caps el \<in> set (trace s')
                   \<and> gst_caps_can_intersect env raw_caps (pad_caps env el)))"
    if cs: "gst_auto_video_src_change_state env ?s GST_STATE_CHANGE_NULL_TO_READY = Inr (r, s')"
    for r s'
  proof -
    obtain ok where d: "gst_auto_video_src_detect env ?s = Inr (ok, s')"
      using change_state_detect [OF cs] by blast
    obtain p tail where
      run: "find_best_loop env ?s (ranked_candidates env) probe_init = Inr p"
      and tr: "trace s' = [SetState tempsrc GST_STATE_NULL] @ calls p @ tail"
      and tl: "tail = [] \<or> tail = [SetState (fake_video_src env) GST_STATE_READY]"
      using detect_trace [OF d] by (auto simp: init_clear_kid_trace)
    obtain k where "calls p = calls probe_init @ probe_calls env ?s (take k (ranked_candidates env))"
      using find_best_loop_calls [OF run] by blast
    then have k: "calls p = probe_calls env ?s (take k (ranked_candidates env))"
      by (simp add: probe_init_def)
    have sub: "set (calls p) \<subseteq> set (trace s')" using tr by auto
    have one: "CanIntersect raw_caps el \<in> set (trace s')
                 \<and> (gst_caps_can_intersect env raw_caps (pad_caps env el)
                      \<longrightarrow> SetState el GST_STATE_READY \<in> set (trace s'))"
      if r: "ranked_candidates env = pre @ f # post"
        and rej: "\<forall>g \<in> set pre. rejected (candidate_outcome env ?s g)"
        and cr: "gst_auto_video_src_create_element_with_pretty_name env ?s f = Inr (n, Some el)"
      for pre f post n el
    proof -
      obtain more where
        "calls p = probe_calls env ?s pre @ candidate_calls env ?s f @ more"
        using find_best_loop_reaches [OF run [unfolded r] rej] by blast
      then have "set (candidate_calls env ?s f) \<subseteq> set (calls p)" by auto
      then have "set (candidate_calls env ?s f) \<subseteq> set (trace s')" using sub by blast
      then show ?thesis using candidate_calls_created [OF cr f] by blast
    qed
    have two: "CanIntersect raw_caps \<lparr>el_name = m, el_factory = n, el_sync = False\<rparr>
                 \<in> set (trace s')"
      if "FactoryCreate n m True \<in> set (trace s')" for n m
    proof -
      have "FactoryCreate n m True \<in> set (calls p)" using that tr tl by auto
      then have "CanIntersect raw_caps \<lparr>el_name = m, el_factory = n, el_sync = False\<rparr>
                   \<in> set (calls p)"
        unfolding k using probe_calls_filtered [OF f] by blast
      then show ?thesis using sub by blast
    qed
    have three: "el = fake_video_src env
               \<or> (CanIntersect raw_caps el \<in> set (trace s')
                   \<and> gst_caps_can_intersect env raw_caps (pad_caps env el))"
      if "SetState el GST_STATE_READY \<in> set (trace s')" for el
    proof (cases "SetState el GST_STATE_READY \<in> set (calls p)")
      case True
      then have "CanIntersect raw_caps el \<in> set (calls p)
                 \<and> gst_caps_can_intersect env raw_caps (pad_caps env el)"
        unfolding k using probe_calls_filtered [OF f] by blast
      then show ?thesis using sub by blast
    next
      case False
      then have "el = fake_video_src env" using that tr tl by auto
      then show ?thesis by blast
    qed
    show ?thesis using one two three by blast
  qed
  have rc: "raw_caps = ''video/x-raw-yuv; video/x-raw-rgb''" by (simp add: raw_caps_def)
  show ?thesis
  proof (intro conjI allI impI)
    show "filter_caps ?s = Some raw_caps" by (rule f)
    show "raw_caps = ''video/x-raw-yuv; video/x-raw-rgb''" by (rule rc)
  qed (use act in blast)+
qed

theorem default_filter_applies_witness:
  "filter_caps (gst_auto_video_src_init env_jpeg ''auto'') = Some raw_caps
   \<and> ranked_candidates env_jpeg = [video_source ''drvA'' 128] @ video_source ''drvB'' 64 # []
   \<and> rejected (candidate_outcome env_jpeg (gst_auto_video_src_init env_jpeg ''auto'')
        (video_source ''drvA'' 128))
   \<and> gst_auto_video_src_create_element_with_pretty_name env_jpeg
        (gst_auto_video_src_init env_jpeg ''auto'') (video_source ''drvB'' 64) =
        Inr (''auto-actual-src-drvB'', Some (candidate_element ''drvB''))
   \<and> gst_caps_can_intersect env_jpeg raw_caps (pad_caps env_jpeg (candidate_element ''drvB''))
   \<and> (\<exists>s'. gst_auto_video_src_change_state env_jpeg (gst_auto_video_src_init env_jpeg ''auto'')
               GST_STATE_CHANGE_NULL_TO_READY = Inr (GST_STATE_CHANGE_SUCCESS, s')
         \<and> CanIntersect raw_caps (candidate_element ''drvB'') \<in> set (trace s')
         \<and> SetState (candidate_element ''drvB'') GST_STATE_READY \<in> set (trace s'))"
proof -
  let ?s = "gst_auto_video_src_init env_jpeg ''auto''"
  define s' where "s' =
     \<lparr>obj_name = ''auto'', kid = Some (candidate_element ''drvB''),
      pad_target = Some (candidate_element ''drvB''),
      filter_caps = Some raw_caps, children = [candidate_element ''drvB''],
      posted = [],
      trace = [SetState tempsrc GST_STATE_NULL,
               FactoryCreate ''drvA'' ''auto-actual-src-drvA'' True,
               CanIntersect raw_caps (candidate_element ''drvA''),
               Unref (candidate_element ''drvA'')] @ trial_calls ''drvB''\<rparr>"
  have run: "gst_auto_video_src_change_state env_jpeg ?s GST_STATE_CHANGE_NULL_TO_READY =
               Inr (GST_STATE_CHANGE_SUCCESS, s')"
    unfolding s'_def by code_simp
  have fc: "filter_caps ?s = Some raw_caps" by code_simp
  have r: "ranked_candidates env_jpeg = [video_source ''drvA'' 128] @ video_source ''drvB'' 64 # []"
    by code_simp
  have a: "rejected (candidate_outcome env_jpeg ?s (video_source ''drvA'' 128))"
    by code_simp
  have pre: "\<forall>g \<in> set [video_source ''drvA'' 128]. rejected (candidate_outcome env_jpeg ?s g)"
    using a by simp
  have cr: "gst_auto_video_src_create_element_with_pretty_name env_jpeg ?s (video_source ''drvB'' 64) =
        Inr (''auto-actual-src-drvB'', Some (candidate_element ''drvB''))"
    by code_simp
  have ci: "gst_caps_can_intersect env_jpeg raw_caps (pad_caps env_jpeg (candidate_element ''drvB''))"
    by code_simp
  from default_filter_applies [of env_jpeg "''auto''"] run r pre cr ci
  have "CanIntersect raw_caps (candidate_element ''drvB'') \<in> set (trace s')
         \<and> SetState (candidate_element ''drvB'') GST_STATE_READY \<in> set (trace s')"
    by blast
  with run fc r a cr ci show ?thesis by blast
qed

end
